theory Spec2Isabelle
  imports Main "HOL-Library.Word"
begin

section \<open>JavaScript strings\<close>

text \<open>
  A JavaScript string is a sequence of UTF-16 code units. The parser in
  \<^verbatim>\<open>src/utils/backlogWikiParser.ts\<close> works on code units throughout (its regular
  expressions carry no \<^verbatim>\<open>u\<close> flag), so a string is a list of 16-bit words.
  \<open>js\<close> reads an ASCII literal of the source as such a list.
\<close>

type_synonym jschar = "16 word"
type_synonym jsstring = "jschar list"

definition js :: "string \<Rightarrow> jsstring" where
  "js s = map of_char s"

definition NL :: jsstring where
  \<comment> \<open>the one-character string \<^verbatim>\<open>'\n'\<close>\<close>
  "NL = [0x0A]"

definition isWhiteSpace :: "jschar \<Rightarrow> bool" where
  \<comment> \<open>ECMAScript WhiteSpace and LineTerminator: what \<^verbatim>\<open>trim\<close> strips and \<^verbatim>\<open>\s\<close> matches\<close>
  "isWhiteSpace c \<longleftrightarrow>
     c \<in> set [0x09, 0x0A, 0x0B, 0x0C, 0x0D, 0x20, 0xA0, 0x1680,
               0x2028, 0x2029, 0x202F, 0x205F, 0x3000, 0xFEFF]
     \<or> (0x2000 \<le> c \<and> c \<le> 0x200A)"

definition isLineTerminator :: "jschar \<Rightarrow> bool" where
  \<comment> \<open>the code units that \<^verbatim>\<open>.\<close> does not match\<close>
  "isLineTerminator c \<longleftrightarrow> c \<in> set [0x0A, 0x0D, 0x2028, 0x2029]"

definition isWordChar :: "jschar \<Rightarrow> bool" where
  \<comment> \<open>\<^verbatim>\<open>\w\<close>, that is \<^verbatim>\<open>[A-Za-z0-9_]\<close>\<close>
  "isWordChar c \<longleftrightarrow>
     (0x61 \<le> c \<and> c \<le> 0x7A) \<or> (0x41 \<le> c \<and> c \<le> 0x5A) \<or> (0x30 \<le> c \<and> c \<le> 0x39) \<or> c = 0x5F"

definition trim :: "jsstring \<Rightarrow> jsstring" where
  "trim s = rev (dropWhile isWhiteSpace (rev (dropWhile isWhiteSpace s)))"

definition startsWith :: "jsstring \<Rightarrow> jsstring \<Rightarrow> bool" where
  "startsWith s p \<longleftrightarrow> take (length p) s = p"

definition endsWith :: "jsstring \<Rightarrow> jsstring \<Rightarrow> bool" where
  "endsWith s p \<longleftrightarrow> length p \<le> length s \<and> drop (length s - length p) s = p"

definition sliceStr :: "jsstring \<Rightarrow> int \<Rightarrow> int \<Rightarrow> jsstring" where
  \<comment> \<open>\<^verbatim>\<open>s.slice(start, stop)\<close>: a negative index counts from the end, both are clamped\<close>
  "sliceStr s start stop =
     (let len = int (length s);
          from = (if start < 0 then max (len + start) 0 else min start len);
          to = (if stop < 0 then max (len + stop) 0 else min stop len)
      in take (nat (to - from)) (drop (nat from) s))"

definition substring :: "jsstring \<Rightarrow> nat \<Rightarrow> jsstring" where
  \<comment> \<open>\<^verbatim>\<open>s.substring(n)\<close>\<close>
  "substring s n = drop n s"

fun splitFrom :: "jsstring \<Rightarrow> jsstring \<Rightarrow> jsstring \<Rightarrow> jsstring list" where
  "splitFrom sep cur [] = [cur]"
| "splitFrom sep cur (c # cs) =
     (if startsWith (c # cs) sep then cur # splitFrom sep [] (drop (length sep - 1) cs)
      else splitFrom sep (cur @ [c]) cs)"

definition split :: "jsstring \<Rightarrow> jsstring \<Rightarrow> jsstring list" where
  \<comment> \<open>\<^verbatim>\<open>s.split(sep)\<close> for a non-empty separator (the source splits on
      \<^verbatim>\<open>'\n'\<close>, \<^verbatim>\<open>'||'\<close> and \<^verbatim>\<open>'|'\<close>)\<close>
  "split s sep = splitFrom sep [] s"

fun join :: "jsstring list \<Rightarrow> jsstring \<Rightarrow> jsstring" where
  "join [] sep = []"
| "join [x] sep = x"
| "join (x # y # ys) sep = x @ sep @ join (y # ys) sep"

datatype js_error = TypeError

definition at :: "'a list \<Rightarrow> nat \<Rightarrow> 'a option" where
  \<comment> \<open>\<^verbatim>\<open>xs[i]\<close>: \<^verbatim>\<open>undefined\<close> outside the array\<close>
  "at xs i = (if i < length xs then Some (xs ! i) else None)"

section \<open>HTML escaping\<close>

text \<open>
  \<^verbatim>\<open>escapeHtml\<close> creates a \<^verbatim>\<open>div\<close>, assigns the text to \<^verbatim>\<open>textContent\<close> and reads
  \<^verbatim>\<open>innerHTML\<close> back. The two DOM operations belong to the browser; they follow
  the DOM and HTML standards: setting \<^verbatim>\<open>textContent\<close> replaces the children by one
  text node (none for the empty string), and \<^verbatim>\<open>innerHTML\<close> serialises each text
  child by the steps of "escaping a string" outside attribute mode, which replace
  \<^verbatim>\<open>&\<close>, then U+00A0, then \<^verbatim>\<open><\<close>, then \<^verbatim>\<open>>\<close>, unless the parent is one of the
  raw-text elements.
\<close>

datatype dom_node = TextNode jsstring

record dom_element =
  tagName :: jsstring
  childNodes :: "dom_node list"

definition createElement :: "jsstring \<Rightarrow> dom_element" where
  "createElement tag = \<lparr>tagName = tag, childNodes = []\<rparr>"

definition set_textContent :: "dom_element \<Rightarrow> jsstring \<Rightarrow> dom_element" where
  "set_textContent el s = el\<lparr>childNodes := (if s = [] then [] else [TextNode s])\<rparr>"

definition replaceAllChar :: "jschar \<Rightarrow> jsstring \<Rightarrow> jsstring \<Rightarrow> jsstring" where
  \<comment> \<open>replace any occurrence of the code unit \<open>c\<close> by the string \<open>r\<close>\<close>
  "replaceAllChar c r s = concat (map (\<lambda>x. if x = c then r else [x]) s)"

definition escapeString :: "jsstring \<Rightarrow> jsstring" where
  "escapeString s =
     replaceAllChar 0x3E (js ''&gt;'')
       (replaceAllChar 0x3C (js ''&lt;'')
         (replaceAllChar 0xA0 (js ''&nbsp;'')
           (replaceAllChar 0x26 (js ''&amp;'') s)))"

definition rawTextElements :: "jsstring list" where
  "rawTextElements = map js [''style'', ''script'', ''xmp'', ''iframe'', ''noembed'',
                             ''noframes'', ''plaintext'']"

fun serializeNode :: "jsstring \<Rightarrow> dom_node \<Rightarrow> jsstring" where
  "serializeNode parent (TextNode d) =
     (if parent \<in> set rawTextElements then d else escapeString d)"

definition innerHTML :: "dom_element \<Rightarrow> jsstring" where
  "innerHTML el = concat (map (serializeNode (tagName el)) (childNodes el))"

definition escapeHtml :: "jsstring \<Rightarrow> jsstring" where
  "escapeHtml text =
     (let div0 = createElement (js ''div'');
          div1 = set_textContent div0 text
      in innerHTML div1)"

section \<open>The table stage\<close>

record tstate =
  result :: "jsstring list"
  inTable :: bool

definition tableBody :: "tstate \<Rightarrow> jsstring \<Rightarrow> tstate" where
  \<comment> \<open>the body of the loop of \<^verbatim>\<open>parseTable\<close>, for \<open>line = lines[i].trim()\<close>\<close>
  \<open>tableBody st line =
     (if startsWith line (js ''||'') \<and> endsWith line (js ''||'') then
        (let st1 = (if \<not> inTable st
                    then \<lparr>result = result st @ [js ''<table class="backlog-table">'', js ''<thead>''],
                          inTable = True\<rparr>
                    else st);
             cells = split (sliceStr line 2 (- 2)) (js ''||'')
         in st1\<lparr>result := result st1 @ [js ''<tr>'']
                     @ map (\<lambda>cell. js ''<th class="backlog-th">'' @ trim cell @ js ''</th>'') cells
                     @ [js ''</tr>'', js ''</thead>'', js ''<tbody>'']\<rparr>)
      else if startsWith line (js ''|'') \<and> endsWith line (js ''|'') then
        (let st1 = (if \<not> inTable st
                    then \<lparr>result = result st @ [js ''<table class="backlog-table">'', js ''<tbody>''],
                          inTable = True\<rparr>
                    else st);
             cells = split (sliceStr line 1 (- 1)) (js ''|'')
         in st1\<lparr>result := result st1 @ [js ''<tr>'']
                     @ map (\<lambda>cell. js ''<td class="backlog-td">'' @ trim cell @ js ''</td>'') cells
                     @ [js ''</tr>'']\<rparr>)
      else
        (let st1 = (if inTable st
                    then \<lparr>result = result st @ [js ''</tbody>'', js ''</table>''], inTable = False\<rparr>
                    else st)
         in st1\<lparr>result := result st1 @ [line]\<rparr>))\<close>

function tableLoop :: "jsstring list \<Rightarrow> nat \<Rightarrow> tstate \<Rightarrow> js_error + tstate" where
  "tableLoop lines i st =
     (if i < length lines then
        (case at lines i of
           None \<Rightarrow> Inl TypeError
         | Some raw \<Rightarrow> tableLoop lines (i + 1) (tableBody st (trim raw)))
      else Inr st)"
  by pat_completeness auto
termination
  by (relation "measure (\<lambda>(lines, i, st). length lines - i)") auto

declare tableLoop.simps [simp del]

definition parseTable :: "jsstring \<Rightarrow> js_error + jsstring" where
  "parseTable text =
     (let lines = split text NL in
      case tableLoop lines 0 \<lparr>result = [], inTable = False\<rparr> of
        Inl e \<Rightarrow> Inl e
      | Inr st \<Rightarrow>
          Inr (join (if inTable st then result st @ [js ''</tbody>'', js ''</table>'']
                     else result st) NL))"

section \<open>The regular expressions\<close>

text \<open>
  Each of the three patterns is a literal prefix, one quantified character class and a
  literal suffix, so its backtracking search is deterministic. \<open>lazyStar ok lit\<close> is a
  lazy star over the class \<open>ok\<close> followed by the literal \<open>lit\<close> at the end of a
  pattern: it stops at the first place where \<open>lit\<close> stands, and fails when a code
  unit outside the class comes first or the input ends. It returns the text consumed
  by the star and the input after the literal.
\<close>

fun lazyStar :: "(jschar \<Rightarrow> bool) \<Rightarrow> jsstring \<Rightarrow> jsstring \<Rightarrow> (jsstring \<times> jsstring) option" where
  "lazyStar ok lit [] = (if lit = [] then Some ([], []) else None)"
| "lazyStar ok lit (c # cs) =
     (if startsWith (c # cs) lit then Some ([], drop (length lit) (c # cs))
      else if ok c then map_option (\<lambda>(b, a). (c # b, a)) (lazyStar ok lit cs)
      else None)"

definition matchCodeBlock :: "jsstring \<Rightarrow> (jsstring option \<times> jsstring \<times> jsstring) option" where
  \<comment> \<open>\<^verbatim>\<open>/\{code(?::(\w+))?\}([\s\S]*?)\{\/code\}/\<close> anchored at the head of \<open>s\<close>: the two
      captures and the input after the match. After \<^verbatim>\<open>{code\<close> the optional group can only
      match at a colon, where the greedy \<^verbatim>\<open>\w+\<close> must take the whole run of word characters
      for \<^verbatim>\<open>}\<close> to follow.\<close>
  "matchCodeBlock s =
     (if startsWith s (js ''{code'') then
        (case drop 5 s of
           [] \<Rightarrow> None
         | c # s2 \<Rightarrow>
             if c = 0x3A then
               (let language = takeWhile isWordChar s2; s3 = dropWhile isWordChar s2 in
                if language \<noteq> [] \<and> startsWith s3 (js ''}'') then
                  map_option (\<lambda>(code, rest). (Some language, code, rest))
                    (lazyStar (\<lambda>_. True) (js ''{/code}'') (drop 1 s3))
                else None)
             else if c = 0x7D then
               map_option (\<lambda>(code, rest). (None, code, rest))
                 (lazyStar (\<lambda>_. True) (js ''{/code}'') s2)
             else None)
      else None)"

definition matchInlineCode :: "jsstring \<Rightarrow> (jsstring \<times> jsstring) option" where
  \<comment> \<open>\<^verbatim>\<open>/&code\(([^)]+)\);/\<close> anchored at the head of \<open>s\<close>: the greedy class must take
      the whole run up to the first \<^verbatim>\<open>)\<close>\<close>
  "matchInlineCode s =
     (if startsWith s (js ''&code('') then
        (let code = takeWhile (\<lambda>c. c \<noteq> 0x29) (drop 6 s);
             s2 = dropWhile (\<lambda>c. c \<noteq> 0x29) (drop 6 s) in
         if code \<noteq> [] \<and> startsWith s2 (js '');'') then Some (code, drop 2 s2) else None)
      else None)"

definition matchBold :: "jsstring \<Rightarrow> (jsstring \<times> jsstring) option" where
  \<comment> \<open>\<^verbatim>\<open>/\*\*(.*?)\*\*/\<close> anchored at the head of \<open>s\<close>\<close>
  "matchBold s =
     (if startsWith s (js ''**'') then
        lazyStar (\<lambda>c. \<not> isLineTerminator c) (js ''**'') (drop 2 s)
      else None)"

text \<open>Every match consumes input, so the global replacements below terminate.\<close>

lemma startsWith_length: "startsWith s p \<Longrightarrow> length p \<le> length s"
proof -
  assume "startsWith s p"
  then have "length (take (length p) s) = length p"
    by (simp add: startsWith_def)
  then show ?thesis by simp
qed

lemma lazyStar_shorter:
  "lazyStar ok lit s = Some (b, a) \<Longrightarrow> length a \<le> length s"
  by (induction s arbitrary: b a) (auto split: if_splits)

lemma matchCodeBlock_shorter:
  assumes "matchCodeBlock s = Some (l, code, rest)"
  shows "length rest < length s"
proof -
  from assms obtain c s2 where d: "drop 5 s = c # s2"
    by (auto simp: matchCodeBlock_def split: if_splits list.splits)
  then have "length (drop 5 s) = Suc (length s2)" by simp
  then have l2: "length s2 < length s" by simp
  have l3: "length (drop 1 (dropWhile isWordChar s2)) \<le> length s2"
    using length_dropWhile_le[of isWordChar s2] by simp
  from assms d consider
      "lazyStar (\<lambda>_. True) (js ''{/code}'') (drop 1 (dropWhile isWordChar s2)) = Some (code, rest)"
    | "lazyStar (\<lambda>_. True) (js ''{/code}'') s2 = Some (code, rest)"
    by (auto simp: matchCodeBlock_def Let_def split: if_splits)
  then show ?thesis
  proof cases
    case 1
    from lazyStar_shorter[OF 1] l2 l3 show ?thesis by linarith
  next
    case 2
    from lazyStar_shorter[OF 2] l2 show ?thesis by linarith
  qed
qed

lemma matchInlineCode_shorter:
  assumes "matchInlineCode s = Some (code, rest)"
  shows "length rest < length s"
proof -
  from assms have pre: "startsWith s (js ''&code('')"
    and rest: "rest = drop 2 (dropWhile (\<lambda>c. c \<noteq> 0x29) (drop 6 s))"
    by (auto simp: matchInlineCode_def Let_def split: if_splits)
  from startsWith_length[OF pre] have "6 \<le> length s" by (simp add: js_def)
  moreover have "length rest \<le> length (drop 6 s)"
    unfolding rest using length_dropWhile_le[of "\<lambda>c. c \<noteq> 0x29" "drop 6 s"] by simp
  ultimately show ?thesis by simp
qed

lemma matchBold_shorter:
  assumes "matchBold s = Some (inner, rest)"
  shows "length rest < length s"
proof -
  from assms have pre: "startsWith s (js ''**'')"
    and m: "lazyStar (\<lambda>c. \<not> isLineTerminator c) (js ''**'') (drop 2 s) = Some (inner, rest)"
    by (auto simp: matchBold_def split: if_splits)
  from startsWith_length[OF pre] have "2 \<le> length s" by (simp add: js_def)
  with lazyStar_shorter[OF m] show ?thesis by simp
qed

section \<open>The code stages\<close>

definition codeBlockReplacer :: "jsstring option \<Rightarrow> jsstring \<Rightarrow> jsstring" where
  \<comment> \<open>the callback of \<^verbatim>\<open>parseCodeBlock\<close>; \<^verbatim>\<open>language || 'text'\<close> takes the default when
      the capture is undefined or empty\<close>
  \<open>codeBlockReplacer language code =
     (let lang = (case language of None \<Rightarrow> js ''text''
                   | Some l \<Rightarrow> if l = [] then js ''text'' else l);
          escapedCode = escapeHtml (trim code)
      in js ''<pre class="backlog-code-block"><code class="language-'' @ lang @ js ''">''
           @ escapedCode @ js ''</code></pre>'')\<close>

function replaceCodeBlocks :: "jsstring \<Rightarrow> jsstring" where
  "replaceCodeBlocks [] = []"
| "replaceCodeBlocks (c # cs) =
     (case matchCodeBlock (c # cs) of
        None \<Rightarrow> c # replaceCodeBlocks cs
      | Some (language, code, rest) \<Rightarrow> codeBlockReplacer language code @ replaceCodeBlocks rest)"
  by pat_completeness auto
termination
  by (relation "measure length") (auto dest: matchCodeBlock_shorter)

definition parseCodeBlock :: "jsstring \<Rightarrow> jsstring" where
  "parseCodeBlock text = replaceCodeBlocks text"

definition inlineCodeReplacer :: "jsstring \<Rightarrow> jsstring" where
  \<open>inlineCodeReplacer code =
     js ''<code class="backlog-inline-code">'' @ escapeHtml code @ js ''</code>''\<close>

function replaceInlineCode :: "jsstring \<Rightarrow> jsstring" where
  "replaceInlineCode [] = []"
| "replaceInlineCode (c # cs) =
     (case matchInlineCode (c # cs) of
        None \<Rightarrow> c # replaceInlineCode cs
      | Some (code, rest) \<Rightarrow> inlineCodeReplacer code @ replaceInlineCode rest)"
  by pat_completeness auto
termination
  by (relation "measure length") (auto dest: matchInlineCode_shorter)

definition parseInlineCode :: "jsstring \<Rightarrow> jsstring" where
  "parseInlineCode text = replaceInlineCode text"

section \<open>The basic markdown stage\<close>

function replaceBold :: "jsstring \<Rightarrow> jsstring" where
  \<comment> \<open>\<^verbatim>\<open>.replace(/\*\*(.*?)\*\*/g, '<strong>$1</strong>')\<close>\<close>
  "replaceBold [] = []"
| "replaceBold (c # cs) =
     (case matchBold (c # cs) of
        None \<Rightarrow> c # replaceBold cs
      | Some (inner, rest) \<Rightarrow> js ''<strong>'' @ inner @ js ''</strong>'' @ replaceBold rest)"
  by pat_completeness auto
termination
  by (relation "measure length") (auto dest: matchBold_shorter)

definition BULLET :: jsstring where
  \<comment> \<open>U+2022 and a space, the text that opens a list line\<close>
  "BULLET = [0x2022, 0x20]"

definition markdownLine :: "jsstring \<Rightarrow> jsstring" where
  \<comment> \<open>the body of the loop of \<^verbatim>\<open>parseBasicMarkdown\<close>: the line pushed for \<open>line\<close>\<close>
  \<open>markdownLine line =
     (let processedLine = replaceBold line in
      if startsWith line (js ''# '') then
        js ''<h1 class="backlog-h1">'' @ substring processedLine 2 @ js ''</h1>''
      else if startsWith line (js ''## '') then
        js ''<h2 class="backlog-h2">'' @ substring processedLine 3 @ js ''</h2>''
      else if startsWith line (js ''### '') then
        js ''<h3 class="backlog-h3">'' @ substring processedLine 4 @ js ''</h3>''
      else if startsWith line (js ''- '') then
        js ''<p class="backlog-list">'' @ BULLET @ substring processedLine 2 @ js ''</p>''
      else if trim processedLine = [] then
        js ''<div class="backlog-spacer"></div>''
      else if \<not> startsWith processedLine (js ''<'') then
        js ''<p class="backlog-paragraph">'' @ processedLine @ js ''</p>''
      else processedLine)\<close>

definition parseBasicMarkdown :: "jsstring \<Rightarrow> jsstring" where
  "parseBasicMarkdown text = join (map markdownLine (split text NL)) NL"

section \<open>The converter\<close>

definition parseBacklogWiki :: "jsstring \<Rightarrow> js_error + jsstring" where
  "parseBacklogWiki text =
     (case parseTable text of
        Inl e \<Rightarrow> Inl e
      | Inr html \<Rightarrow> Inr (parseBasicMarkdown (parseInlineCode (parseCodeBlock html))))"

definition formatContent :: "jsstring \<Rightarrow> js_error + jsstring" where
  \<comment> \<open>the wrapper of the article pages (\<^verbatim>\<open>formatContent\<close>, \<^verbatim>\<open>getPreviewHtml\<close>):
      \<^verbatim>\<open>if (!content) return ''\<close>\<close>
  "formatContent content = (if content = [] then Inr [] else parseBacklogWiki content)"

section \<open>Notions used by the properties\<close>

text \<open>
  The two row patterns of the table stage, the cells a row emits, and the loop of
  \<^verbatim>\<open>parseTable\<close> as a fold over the lines that remain.
\<close>

definition isHeaderRow :: "jsstring \<Rightarrow> bool" where
  "isHeaderRow line \<longleftrightarrow> startsWith line (js ''||'') \<and> endsWith line (js ''||'')"

definition isDataRow :: "jsstring \<Rightarrow> bool" where
  "isDataRow line \<longleftrightarrow>
     \<not> isHeaderRow line \<and> startsWith line (js ''|'') \<and> endsWith line (js ''|'')"

definition headerCells :: "jsstring \<Rightarrow> jsstring list" where
  \<open>headerCells line =
     map (\<lambda>cell. js ''<th class="backlog-th">'' @ trim cell @ js ''</th>'')
       (split (sliceStr line 2 (- 2)) (js ''||''))\<close>

definition dataCells :: "jsstring \<Rightarrow> jsstring list" where
  \<open>dataCells line =
     map (\<lambda>cell. js ''<td class="backlog-td">'' @ trim cell @ js ''</td>'')
       (split (sliceStr line 1 (- 1)) (js ''|''))\<close>

definition tableRun :: "tstate \<Rightarrow> jsstring list \<Rightarrow> tstate" where
  "tableRun st ls = foldl (\<lambda>s raw. tableBody s (trim raw)) st ls"

definition tableInit :: tstate where
  "tableInit = \<lparr>result = [], inTable = False\<rparr>"

definition headerRowLines :: "jsstring \<Rightarrow> jsstring list" where
  "headerRowLines line = [js ''<tr>''] @ headerCells line @ [js ''</tr>'', js ''</thead>'', js ''<tbody>'']"

definition htmlEntity :: "jschar \<Rightarrow> jsstring" where
  "htmlEntity c =
     (if c = 0x26 then js ''&amp;''
      else if c = 0x3C then js ''&lt;''
      else if c = 0x3E then js ''&gt;''
      else if c = 0xA0 then js ''&nbsp;''
      else [c])"

fun matchFree :: "(jsstring \<Rightarrow> 'a option) \<Rightarrow> jsstring \<Rightarrow> jsstring \<Rightarrow> bool" where
  "matchFree m [] rest = True"
| "matchFree m (c # cs) rest = (m (c # cs @ rest) = None \<and> matchFree m cs rest)"

definition fence :: "jsstring option \<Rightarrow> jsstring" where
  "fence language =
     (case language of None \<Rightarrow> js ''{code}'' | Some l \<Rightarrow> js ''{code:'' @ l @ js ''}'')"

definition plainLine :: "jsstring \<Rightarrow> jsstring" where
  \<open>plainLine l =
     (if l = [] then js ''<div class="backlog-spacer"></div>''
      else if startsWith l (js ''<'') then l
      else js ''<p class="backlog-paragraph">'' @ l @ js ''</p>'')\<close>

definition noMarkup :: "jsstring \<Rightarrow> bool" where
  "noMarkup text \<longleftrightarrow>
     (let ls = map trim (split text NL); t = join ls NL in
      list_all (\<lambda>l. \<not> isHeaderRow l \<and> \<not> isDataRow l
                  \<and> \<not> startsWith l (js ''# '') \<and> \<not> startsWith l (js ''## '')
                  \<and> \<not> startsWith l (js ''### '') \<and> \<not> startsWith l (js ''- '')
                  \<and> matchFree matchBold l []) ls
      \<and> matchFree matchCodeBlock t [] \<and> matchFree matchInlineCode t [])"

definition dataRowLines :: "jsstring \<Rightarrow> jsstring list" where
  "dataRowLines line = [js ''<tr>''] @ dataCells line @ [js ''</tr>'']"

definition rowLines :: "jsstring \<Rightarrow> jsstring list" where
  "rowLines line = (if isHeaderRow line then headerRowLines line else dataRowLines line)"

definition tableOpenLines :: "jsstring \<Rightarrow> jsstring list" where
  \<open>tableOpenLines line =
     (if isHeaderRow line then [js ''<table class="backlog-table">'', js ''<thead>'']
      else [js ''<table class="backlog-table">'', js ''<tbody>''])\<close>


section \<open>Lemmas on the table stage\<close>

lemma tableLoop_run: "tableLoop lines i st = Inr (tableRun st (drop i lines))"
proof (induction lines i st rule: tableLoop.induct)
  case (1 lines i st)
  show ?case
  proof (cases "i < length lines")
    case True
    then have d: "drop i lines = lines ! i # drop (Suc i) lines"
      by (simp add: Cons_nth_drop_Suc)
    from True have a: "at lines i = Some (lines ! i)"
      by (simp add: at_def)
    from "1.IH"[OF True a] True a show ?thesis
      by (subst tableLoop.simps) (simp add: d tableRun_def)
  next
    case False
    then show ?thesis
      by (subst tableLoop.simps) (simp add: tableRun_def)
  qed
qed

lemma tableBody_header:
  \<open>isHeaderRow line \<Longrightarrow>
   tableBody st line =
     \<lparr>result = result st
        @ (if inTable st then [] else [js ''<table class="backlog-table">'', js ''<thead>''])
        @ [js ''<tr>''] @ headerCells line @ [js ''</tr>'', js ''</thead>'', js ''<tbody>''],
      inTable = True\<rparr>\<close>
  by (auto simp: tableBody_def isHeaderRow_def headerCells_def Let_def)

lemma tableBody_data:
  \<open>isDataRow line \<Longrightarrow>
   tableBody st line =
     \<lparr>result = result st
        @ (if inTable st then [] else [js ''<table class="backlog-table">'', js ''<tbody>''])
        @ [js ''<tr>''] @ dataCells line @ [js ''</tr>''],
      inTable = True\<rparr>\<close>
  by (auto simp: tableBody_def isDataRow_def isHeaderRow_def dataCells_def Let_def)

lemma tableBody_other:
  \<open>\<not> isHeaderRow line \<Longrightarrow> \<not> isDataRow line \<Longrightarrow>
   tableBody st line =
     \<lparr>result = result st
        @ (if inTable st then [js ''</tbody>'', js ''</table>''] else []) @ [line],
      inTable = False\<rparr>\<close>
  by (auto simp: tableBody_def isDataRow_def isHeaderRow_def Let_def)

lemma parseTable_run:
  "parseTable text =
     (let st = tableRun tableInit (split text NL) in
      Inr (join (if inTable st then result st @ [js ''</tbody>'', js ''</table>'']
                 else result st) NL))"
  by (simp add: parseTable_def tableLoop_run tableInit_def Let_def)

lemma join_snoc: "xs \<noteq> [] \<Longrightarrow> join (xs @ [x]) sep = join xs sep @ sep @ x"
  by (induction xs sep rule: join.induct) auto

lemma tableRun_snoc: "tableRun st (ls @ [l]) = tableBody (tableRun st ls) (trim l)"
  by (simp add: tableRun_def)

lemma splitFrom_nonempty: "splitFrom sep cur s \<noteq> []"
  by (induction sep cur s rule: splitFrom.induct) auto

lemma split_nonempty: "split s sep \<noteq> []"
  by (simp add: split_def splitFrom_nonempty)

lemma tableRun_Cons: "tableRun st (l # ls) = tableRun (tableBody st (trim l)) ls"
  by (simp add: tableRun_def)

lemma tableRun_Nil: "tableRun st [] = st"
  by (simp add: tableRun_def)

lemma tableRun_others_closed:
  "\<forall>l\<in>set ls. \<not> isHeaderRow (trim l) \<and> \<not> isDataRow (trim l) \<Longrightarrow> \<not> inTable st \<Longrightarrow>
   tableRun st ls = \<lparr>result = result st @ map trim ls, inTable = False\<rparr>"
  by (induction ls arbitrary: st) (simp_all add: tableRun_Nil tableRun_Cons tableBody_other)

lemma tableRun_others:
  assumes "\<forall>l\<in>set ls. \<not> isHeaderRow (trim l) \<and> \<not> isDataRow (trim l)" and "ls \<noteq> []"
  shows "tableRun st ls =
     \<lparr>result = result st @ (if inTable st then [js ''</tbody>'', js ''</table>''] else [])
                @ map trim ls,
      inTable = False\<rparr>"
proof -
  from assms obtain l ls' where ls: "ls = l # ls'" by (cases ls) auto
  with assms have l: "\<not> isHeaderRow (trim l)" "\<not> isDataRow (trim l)"
    and rest: "\<forall>l\<in>set ls'. \<not> isHeaderRow (trim l) \<and> \<not> isDataRow (trim l)"
    by auto
  show ?thesis
    unfolding ls tableRun_Cons
    by (subst tableRun_others_closed[OF rest]) (simp_all add: tableBody_other l)
qed

lemma tableRun_data_open:
  "\<forall>l\<in>set ls. isDataRow (trim l) \<Longrightarrow> inTable st \<Longrightarrow>
   tableRun st ls =
     \<lparr>result = result st @ concat (map (\<lambda>l. [js ''<tr>''] @ dataCells (trim l) @ [js ''</tr>'']) ls),
      inTable = True\<rparr>"
  by (induction ls arbitrary: st) (simp_all add: tableRun_Nil tableRun_Cons tableBody_data)

lemma thead_not_dataCell: "js ''<thead>'' \<notin> set (dataCells line)"
  by (auto simp: dataCells_def js_def)

lemma count_list_concat: "count_list (concat xss) x = sum_list (map (\<lambda>xs. count_list xs x) xss)"
  by (induction xss) simp_all

lemma count_headerCells:
  "count_list (headerCells line) (js ''<thead>'') = 0"
  "count_list (headerCells line) (js ''</thead>'') = 0"
  "count_list (headerCells line) (js ''<tbody>'') = 0"
  by (auto simp: headerCells_def js_def count_list_0_iff)

lemma tableRun_header_open:
  "\<forall>l\<in>set ls. isHeaderRow (trim l) \<Longrightarrow> inTable st \<Longrightarrow>
   tableRun st ls =
     \<lparr>result = result st @ concat (map (\<lambda>l. headerRowLines (trim l)) ls), inTable = True\<rparr>"
  by (induction ls arbitrary: st)
     (simp_all add: tableRun_Nil tableRun_Cons tableBody_header headerRowLines_def)

lemma count_headerRowLines:
  "count_list (headerRowLines line) (js ''<thead>'') = 0"
  "count_list (headerRowLines line) (js ''</thead>'') = 1"
  "count_list (headerRowLines line) (js ''<tbody>'') = 1"
  by (simp_all add: headerRowLines_def count_headerCells) (simp_all add: js_def)

lemma sum_list_const: "sum_list (map (\<lambda>x. (c::nat)) xs) = c * length xs"
  by (induction xs) simp_all

lemma tableRun_append: "tableRun st (xs @ ys) = tableRun (tableRun st xs) ys"
  by (simp add: tableRun_def)

lemma tableBody_row:
  "isHeaderRow line \<or> isDataRow line \<Longrightarrow>
   tableBody st line =
     \<lparr>result = result st @ (if inTable st then [] else tableOpenLines line) @ rowLines line,
      inTable = True\<rparr>"
  by (auto simp: tableBody_header tableBody_data rowLines_def tableOpenLines_def
      headerRowLines_def dataRowLines_def isDataRow_def)

lemma tableRun_rows_open:
  "\<forall>l\<in>set ls. isHeaderRow (trim l) \<or> isDataRow (trim l) \<Longrightarrow> inTable st \<Longrightarrow>
   tableRun st ls =
     \<lparr>result = result st @ concat (map (\<lambda>l. rowLines (trim l)) ls), inTable = True\<rparr>"
  by (induction ls arbitrary: st) (simp_all add: tableRun_Nil tableRun_Cons tableBody_row)

lemma tableRun_rows:
  assumes "\<forall>l\<in>set rows. isHeaderRow (trim l) \<or> isDataRow (trim l)" and "rows \<noteq> []"
  shows "tableRun st rows =
     \<lparr>result = result st @ (if inTable st then [] else tableOpenLines (trim (hd rows)))
                @ concat (map (\<lambda>l. rowLines (trim l)) rows),
      inTable = True\<rparr>"
proof -
  from assms obtain r rs where rows: "rows = r # rs" by (cases rows) auto
  with assms have r: "isHeaderRow (trim r) \<or> isDataRow (trim r)"
    and rest: "\<forall>l\<in>set rs. isHeaderRow (trim l) \<or> isDataRow (trim l)"
    by auto
  show ?thesis
    unfolding rows tableRun_Cons
    by (subst tableRun_rows_open[OF rest]) (simp_all add: tableBody_row[OF r])
qed

lemma tableRun_closed_after_other:
  assumes "pre = [] \<or> \<not> (isHeaderRow (trim (last pre)) \<or> isDataRow (trim (last pre)))"
  shows "\<not> inTable (tableRun tableInit pre)"
proof (cases "pre = []")
  case True
  then show ?thesis by (simp add: tableRun_Nil tableInit_def)
next
  case False
  then have p: "pre = butlast pre @ [last pre]" by simp
  from False assms have "\<not> isHeaderRow (trim (last pre))" "\<not> isDataRow (trim (last pre))"
    by auto
  then have "\<not> inTable (tableBody (tableRun tableInit (butlast pre)) (trim (last pre)))"
    by (simp add: tableBody_other)
  moreover have "tableRun tableInit pre
      = tableBody (tableRun tableInit (butlast pre)) (trim (last pre))"
    using tableRun_snoc[of tableInit "butlast pre" "last pre"] p by metis
  ultimately show ?thesis by simp
qed

section \<open>Lemmas on escaping\<close>

lemma replaceAllChar_Nil: "replaceAllChar c r [] = []"
  by (simp add: replaceAllChar_def)

lemma replaceAllChar_Cons:
  "replaceAllChar c r (x # xs) = (if x = c then r else [x]) @ replaceAllChar c r xs"
  by (simp add: replaceAllChar_def)

lemma replaceAllChar_append:
  "replaceAllChar c r (xs @ ys) = replaceAllChar c r xs @ replaceAllChar c r ys"
  by (simp add: replaceAllChar_def)

lemma escapeString_Nil: "escapeString [] = []"
  by (simp add: escapeString_def replaceAllChar_Nil)

lemma escapeString_Cons: "escapeString (x # xs) = htmlEntity x @ escapeString xs"
  by (simp add: escapeString_def replaceAllChar_Cons replaceAllChar_append htmlEntity_def)
     (simp add: js_def replaceAllChar_Cons replaceAllChar_Nil)

lemma escapeString_entities: "escapeString s = concat (map htmlEntity s)"
  by (induction s) (simp_all add: escapeString_Nil escapeString_Cons)

lemma div_not_rawText: "js ''div'' \<notin> set rawTextElements"
  by (simp add: rawTextElements_def js_def)

section \<open>Lemmas on the replacements\<close>

lemma replaceCodeBlocks_skip:
  "matchFree matchCodeBlock pre rest \<Longrightarrow>
   replaceCodeBlocks (pre @ rest) = pre @ replaceCodeBlocks rest"
  by (induction pre) simp_all

lemma replaceInlineCode_skip:
  "matchFree matchInlineCode pre rest \<Longrightarrow>
   replaceInlineCode (pre @ rest) = pre @ replaceInlineCode rest"
  by (induction pre) simp_all

lemma replaceBold_skip:
  "matchFree matchBold pre rest \<Longrightarrow> replaceBold (pre @ rest) = pre @ replaceBold rest"
  by (induction pre) simp_all








lemma fence_nonempty: "fence language \<noteq> []"
  by (cases language) (simp_all add: fence_def js_def)


section \<open>Lemmas on lines and trimming\<close>

lemma splitFrom_char_skip:
  "d \<notin> set x \<Longrightarrow> splitFrom [d] cur (x @ rest) = splitFrom [d] (cur @ x) rest"
  by (induction x arbitrary: cur) (auto simp: startsWith_def)

lemma splitFrom_char_sep: "splitFrom [d] cur (d # rest) = cur # splitFrom [d] [] rest"
  by (simp add: startsWith_def)

lemma split_join_char:
  "xs \<noteq> [] \<Longrightarrow> \<forall>x\<in>set xs. d \<notin> set x \<Longrightarrow> split (join xs [d]) [d] = xs"
proof (induction xs "[d]" rule: join.induct)
  case 1
  then show ?case by simp
next
  case (2 x)
  then show ?case
    using splitFrom_char_skip[of d x "[]" "[]"] by (simp add: split_def)
next
  case (3 x y ys)
  then have "split (join (y # ys) [d]) [d] = y # ys" by simp
  moreover from 3 have "d \<notin> set x" by simp
  ultimately show ?case
    using splitFrom_char_skip[of d x "[]" "d # join (y # ys) [d]"]
    by (simp add: split_def startsWith_def)
qed

lemma splitFrom_char_free:
  "d \<notin> set cur \<Longrightarrow> \<forall>l\<in>set (splitFrom [d] cur s). d \<notin> set l"
proof (induction s arbitrary: cur)
  case Nil
  then show ?case by simp
next
  case (Cons a s)
  show ?case
  proof (cases "a = d")
    case True
    with Cons.prems Cons.IH[of "[]"] show ?thesis by (simp add: startsWith_def)
  next
    case False
    with Cons.prems Cons.IH[of "cur @ [a]"] show ?thesis by (simp add: startsWith_def)
  qed
qed

lemma split_char_free: "\<forall>l\<in>set (split s [d]). d \<notin> set l"
  using splitFrom_char_free[of d "[]" s] by (simp add: split_def)

lemma set_trim: "set (trim l) \<subseteq> set l"
proof -
  have "set (trim l) \<subseteq> set (dropWhile isWhiteSpace l)"
    unfolding trim_def using set_dropWhileD by fastforce
  also have "\<dots> \<subseteq> set l"
    using set_dropWhileD by fastforce
  finally show ?thesis .
qed

lemma trim_Nil_iff: "trim l = [] \<longleftrightarrow> (\<forall>c\<in>set l. isWhiteSpace c)"
proof -
  have "trim l = [] \<longleftrightarrow> (\<forall>c\<in>set (dropWhile isWhiteSpace l). isWhiteSpace c)"
    by (simp add: trim_def dropWhile_eq_Nil_conv)
  also have "\<dots> \<longleftrightarrow> dropWhile isWhiteSpace l = []"
  proof
    assume a: "\<forall>c\<in>set (dropWhile isWhiteSpace l). isWhiteSpace c"
    show "dropWhile isWhiteSpace l = []"
    proof (rule ccontr)
      assume ne: "dropWhile isWhiteSpace l \<noteq> []"
      then have "hd (dropWhile isWhiteSpace l) \<in> set (dropWhile isWhiteSpace l)"
        by (rule hd_in_set)
      with a hd_dropWhile[OF ne] show False by blast
    qed
  next
    assume e: "dropWhile isWhiteSpace l = []"
    show "\<forall>c\<in>set (dropWhile isWhiteSpace l). isWhiteSpace c"
      unfolding e by simp
  qed
  also have "\<dots> \<longleftrightarrow> (\<forall>c\<in>set l. isWhiteSpace c)"
    by (rule dropWhile_eq_Nil_conv)
  finally show ?thesis .
qed

lemma last_dropWhile: "dropWhile P xs \<noteq> [] \<Longrightarrow> last (dropWhile P xs) = last xs"
  by (induction xs) (auto split: if_splits)

lemma hd_trim: "trim l \<noteq> [] \<Longrightarrow> \<not> isWhiteSpace (hd (trim l))"
proof -
  assume ne: "trim l \<noteq> []"
  define y where "y = dropWhile isWhiteSpace l"
  define z where "z = dropWhile isWhiteSpace (rev y)"
  have t: "trim l = rev z" by (simp add: trim_def y_def z_def)
  with ne have z: "z \<noteq> []" by simp
  then have y: "y \<noteq> []" by (auto simp: z_def)
  have "hd (trim l) = last z" using z by (simp add: t hd_rev)
  also have "\<dots> = last (rev y)" using z unfolding z_def by (rule last_dropWhile)
  also have "\<dots> = hd y" using y by (simp add: last_rev)
  finally have "hd (trim l) = hd y" .
  moreover have "\<not> isWhiteSpace (hd y)"
    using y unfolding y_def by (rule hd_dropWhile)
  ultimately show ?thesis by simp
qed

lemma trim_trim_Nil: "trim (trim l) = [] \<longleftrightarrow> trim l = []"
proof
  assume a: "trim (trim l) = []"
  show "trim l = []"
  proof (rule ccontr)
    assume ne: "trim l \<noteq> []"
    then have "hd (trim l) \<in> set (trim l)" by simp
    with a have "isWhiteSpace (hd (trim l))" by (simp add: trim_Nil_iff)
    with hd_trim[OF ne] show False by simp
  qed
next
  assume e: "trim l = []"
  show "trim (trim l) = []"
    unfolding e by (simp add: trim_def)
qed

lemma parseTable_no_rows:
  assumes "\<forall>l\<in>set (split text NL). \<not> isHeaderRow (trim l) \<and> \<not> isDataRow (trim l)"
  shows "parseTable text = Inr (join (map trim (split text NL)) NL)"
  using tableRun_others_closed[OF assms, of tableInit]
  by (simp add: parseTable_run tableInit_def)

lemma markdownLine_plain:
  assumes "\<not> startsWith (trim l) (js ''# '')" "\<not> startsWith (trim l) (js ''## '')"
    "\<not> startsWith (trim l) (js ''### '')" "\<not> startsWith (trim l) (js ''- '')"
    "matchFree matchBold (trim l) []"
  shows "markdownLine (trim l) = plainLine (trim l)"
proof -
  have "replaceBold (trim l) = trim l"
    using replaceBold_skip[OF assms(5)] by simp
  then show ?thesis
    using assms(1-4) by (simp add: markdownLine_def plainLine_def trim_trim_Nil)
qed

section \<open>Lemmas on a fenced block through the converter\<close>














section \<open>Properties\<close>

text \<open>
  C1. For the input \<^verbatim>\<open>**bold** text\<close> the converter returns
  \<^verbatim>\<open><strong>bold</strong>\<close> followed by \<^verbatim>\<open> text\<close>. The line is not wrapped in a
  paragraph tag: after the bold substitution it starts with \<^verbatim>\<open><\<close>, and the last
  branch of the basic markdown stage passes such a line through.
\<close>

theorem parse_bold_text:
  \<open>parseBacklogWiki (js ''**bold** text'') = Inr (js ''<strong>bold</strong> text'')\<close>
  by code_simp

text \<open>C1 as stated, with the paragraph tag around the line, does not hold.\<close>

theorem parse_bold_text_counterexample:
  \<open>parseBacklogWiki (js ''**bold** text'')
     \<noteq> Inr (js ''<p class="backlog-paragraph"><strong>bold</strong> text</p>'')\<close>
  by code_simp

text \<open>
  C2. For the empty string the converter returns the spacer element: the empty input is
  one blank line. The empty string is what the wrappers of the article pages return,
  which test for empty content before they call the converter.
\<close>

theorem parse_empty:
  \<open>parseBacklogWiki [] = Inr (js ''<div class="backlog-spacer"></div>'')
     \<and> formatContent [] = Inr []\<close>
  by code_simp

text \<open>C2 as stated: the converter's output for the empty string is not empty.\<close>

theorem parse_empty_counterexample:
  "parseBacklogWiki [] \<noteq> Inr []"
  by code_simp

text \<open>
  C3. For every input string, the escaping primitive returns the string with each
  \<^verbatim>\<open>&\<close>, \<^verbatim>\<open><\<close> and \<^verbatim>\<open>>\<close> replaced by \<^verbatim>\<open>&amp;\<close>, \<^verbatim>\<open>&lt;\<close> and \<^verbatim>\<open>&gt;\<close>, each
  U+00A0 by \<^verbatim>\<open>&nbsp;\<close>, and every other code unit, the quote characters among them,
  as it is: the serialisation of a text node does not escape quotes.
\<close>

theorem escapeHtml_entities: "escapeHtml s = concat (map htmlEntity s)"
  by (simp add: escapeHtml_def createElement_def set_textContent_def innerHTML_def
      div_not_rawText escapeString_entities)

text \<open>
  C3 as stated, with the quote characters replaced by entities, does not hold: a double
  and a single quote come back unchanged.
\<close>

theorem escapeHtml_quotes_counterexample:
  "escapeHtml [0x22] = [0x22] \<and> escapeHtml [0x22] \<noteq> js ''&quot;''
   \<and> escapeHtml [0x27] = [0x27] \<and> escapeHtml [0x27] \<noteq> js ''&#39;''"
  by code_simp

text \<open>
  C4. A run of header rows emits one \<^verbatim>\<open></thead>\<close> and one \<^verbatim>\<open><tbody>\<close> for each header
  row, and \<^verbatim>\<open><thead>\<close> once, when its first row opens the table, or not at all when a
  table is open already: consecutive header rows give several \<^verbatim>\<open><tbody>\<close> open tags
  and at most one \<^verbatim>\<open><thead>\<close> open tag.
\<close>

theorem header_rows_one_thead:
  assumes "\<forall>l\<in>set hs. isHeaderRow (trim l)" and "hs \<noteq> []"
  shows \<open>\<exists>emitted.
     tableLoop hs 0 st = Inr \<lparr>result = result st @ emitted, inTable = True\<rparr>
     \<and> count_list emitted (js ''<thead>'') = (if inTable st then 0 else 1)
     \<and> count_list emitted (js ''</thead>'') = length hs
     \<and> count_list emitted (js ''<tbody>'') = length hs\<close>
proof -
  define emitted where \<open>emitted =
     (if inTable st then [] else [js ''<table class="backlog-table">'', js ''<thead>''])
     @ concat (map (\<lambda>l. headerRowLines (trim l)) hs)\<close>
  from assms obtain l ls' where ls: "hs = l # ls'" by (cases hs) auto
  with assms have l: "isHeaderRow (trim l)" and rest: "\<forall>l\<in>set ls'. isHeaderRow (trim l)"
    by auto
  have "tableRun st hs = \<lparr>result = result st @ emitted, inTable = True\<rparr>"
    unfolding ls tableRun_Cons emitted_def
    by (subst tableRun_header_open[OF rest])
       (simp_all add: tableBody_header l headerRowLines_def)
  moreover have "count_list emitted (js ''<thead>'') = (if inTable st then 0 else 1)"
    "count_list emitted (js ''</thead>'') = length hs"
    "count_list emitted (js ''<tbody>'') = length hs"
    unfolding emitted_def
    by (simp_all add: count_list_concat count_headerRowLines sum_list_const comp_def)
       (simp_all add: js_def)
  ultimately show ?thesis by (simp add: tableLoop_run)
qed

theorem header_rows_one_thead_witness:
  \<open>isHeaderRow (trim (js ''||a||'')) \<and> isHeaderRow (trim (js '' ||b||c||''))
   \<and> [js ''||a||'', js '' ||b||c||''] \<noteq> []
   \<and> (\<exists>emitted.
         tableLoop [js ''||a||'', js '' ||b||c||''] 0 tableInit
           = Inr \<lparr>result = result tableInit @ emitted, inTable = True\<rparr>
         \<and> count_list emitted (js ''<thead>'') = 1
         \<and> count_list emitted (js ''</thead>'') = length [js ''||a||'', js '' ||b||c||'']
         \<and> count_list emitted (js ''<tbody>'') = length [js ''||a||'', js '' ||b||c||''])\<close>
proof -
  have h1: "\<forall>l\<in>set [js ''||a||'', js '' ||b||c||'']. isHeaderRow (trim l)" by code_simp
  have h2: "[js ''||a||'', js '' ||b||c||''] \<noteq> []" by simp
  from h1 have h1': "isHeaderRow (trim (js ''||a||''))" "isHeaderRow (trim (js '' ||b||c||''))"
    by simp_all
  from h1' h2 header_rows_one_thead[OF h1 h2, of tableInit] show ?thesis
    by (simp add: tableInit_def)
qed

text \<open>
  C4 as stated, with a \<^verbatim>\<open><thead>\<close> opened for every header row, does not hold: two
  header rows give one \<^verbatim>\<open><thead>\<close> line and two \<^verbatim>\<open><tbody>\<close> lines.
\<close>

theorem header_rows_thead_counterexample:
  \<open>parseTable (js ''||a||'' @ NL @ js ''||b||'') =
     Inr (join (map js
       [''<table class="backlog-table">'', ''<thead>'',
        ''<tr>'', ''<th class="backlog-th">a</th>'', ''</tr>'', ''</thead>'', ''<tbody>'',
        ''<tr>'', ''<th class="backlog-th">b</th>'', ''</tr>'', ''</thead>'', ''<tbody>'',
        ''</tbody>'', ''</table>'']) NL)\<close>
  by code_simp

text \<open>
  C5. Lines that match neither row pattern pass through the table stage with their
  leading and trailing white space removed, after the two closing tags when a table
  was open; apart from the trimming their text is not altered.
\<close>

theorem other_lines_pass_trimmed:
  assumes "\<forall>l\<in>set ls. \<not> isHeaderRow (trim l) \<and> \<not> isDataRow (trim l)" and "ls \<noteq> []"
  shows "tableLoop ls 0 st =
     Inr \<lparr>result = result st @ (if inTable st then [js ''</tbody>'', js ''</table>''] else [])
                    @ map trim ls,
          inTable = False\<rparr>"
  using tableRun_others[OF assms] by (simp add: tableLoop_run)

theorem other_lines_pass_trimmed_witness:
  "\<not> isHeaderRow (trim (js ''  a | b '')) \<and> \<not> isDataRow (trim (js ''  a | b ''))
   \<and> \<not> isHeaderRow (trim (js ''c'')) \<and> \<not> isDataRow (trim (js ''c''))
   \<and> [js ''  a | b '', js ''c''] \<noteq> []
   \<and> tableLoop [js ''  a | b '', js ''c''] 0 \<lparr>result = [js ''<tr>''], inTable = True\<rparr> =
       Inr \<lparr>result = [js ''<tr>'', js ''</tbody>'', js ''</table>'', js ''a | b'', js ''c''],
            inTable = False\<rparr>"
proof -
  have h1: "\<forall>l\<in>set [js ''  a | b '', js ''c''].
       \<not> isHeaderRow (trim l) \<and> \<not> isDataRow (trim l)" by code_simp
  have h2: "[js ''  a | b '', js ''c''] \<noteq> []" by simp
  have t: "trim (js ''  a | b '') = js ''a | b''" "trim (js ''c'') = js ''c''"
    by code_simp+
  from h1 h2 other_lines_pass_trimmed[OF h1 h2, of "\<lparr>result = [js ''<tr>''], inTable = True\<rparr>"]
  show ?thesis by (simp add: t)
qed

text \<open>
  C5 as stated, with the line passed through unchanged, does not hold: an indented
  line loses its indentation.
\<close>

theorem other_line_unchanged_counterexample:
  "parseTable (js ''  indented'') = Inr (js ''indented'')
   \<and> parseTable (js ''  indented'') \<noteq> Inr (js ''  indented'')"
  by code_simp

text \<open>
  C6. For every input in which the stages find no markup (no trimmed line is a table
  row, a heading or a list line or holds a bold span, and the text of the trimmed lines
  holds no fenced code block and no inline code span), the output is the input with every
  line stripped of its leading and trailing white space and then: a blank line replaced
  by the spacer element, a line that starts with \<^verbatim>\<open><\<close> left as it is, every other line
  wrapped in a paragraph tag.
\<close>

theorem plain_text_lines:
  assumes "noMarkup text"
  shows "parseBacklogWiki text = Inr (join (map (\<lambda>l. plainLine (trim l)) (split text NL)) NL)"
proof -
  define ls where "ls = split text NL"
  define t where "t = join (map trim ls) NL"
  from assms have rows: "\<forall>l\<in>set ls. \<not> isHeaderRow (trim l) \<and> \<not> isDataRow (trim l)"
    and lines: "\<forall>l\<in>set ls. \<not> startsWith (trim l) (js ''# '') \<and> \<not> startsWith (trim l) (js ''## '')
        \<and> \<not> startsWith (trim l) (js ''### '') \<and> \<not> startsWith (trim l) (js ''- '')
        \<and> matchFree matchBold (trim l) []"
    and nocode: "matchFree matchCodeBlock t []" and noinline: "matchFree matchInlineCode t []"
    by (simp_all add: noMarkup_def Let_def ls_def t_def list_all_iff)
  have pt: "parseTable text = Inr t"
    using parseTable_no_rows rows by (simp add: ls_def t_def)
  have pc: "parseCodeBlock t = t"
    using replaceCodeBlocks_skip[OF nocode] by (simp add: parseCodeBlock_def)
  have pi: "parseInlineCode t = t"
    using replaceInlineCode_skip[OF noinline] by (simp add: parseInlineCode_def)
  have sp: "split t NL = map trim ls"
  proof -
    have "ls \<noteq> []" by (simp add: ls_def split_nonempty)
    moreover have "\<forall>x\<in>set (map trim ls). 0x0A \<notin> set x"
      using split_char_free[of "text" "0x0A"] set_trim by (fastforce simp: ls_def NL_def)
    ultimately show ?thesis
      unfolding t_def NL_def using split_join_char[of "map trim ls" "0x0A"] by simp
  qed
  have m: "map markdownLine (map trim ls) = map (\<lambda>l. plainLine (trim l)) ls"
    using lines by (simp add: markdownLine_plain)
  have "parseBacklogWiki text = Inr (parseBasicMarkdown t)"
    by (simp add: parseBacklogWiki_def pt pc pi)
  also have "parseBasicMarkdown t = join (map (\<lambda>l. plainLine (trim l)) ls) NL"
    by (simp only: parseBasicMarkdown_def sp m)
  finally show ?thesis
    by (simp only: ls_def)
qed

theorem plain_text_lines_witness:
  \<open>noMarkup (js ''one'' @ NL @ NL @ js '' two, three '')
   \<and> parseBacklogWiki (js ''one'' @ NL @ NL @ js '' two, three '')
       = Inr (js ''<p class="backlog-paragraph">one</p>'' @ NL
              @ js ''<div class="backlog-spacer"></div>'' @ NL
              @ js ''<p class="backlog-paragraph">two, three</p>'')\<close>
proof -
  have h: "noMarkup (js ''one'' @ NL @ NL @ js '' two, three '')" by code_simp
  have e: \<open>join (map (\<lambda>l. plainLine (trim l)) (split (js ''one'' @ NL @ NL @ js '' two, three '') NL)) NL
      = js ''<p class="backlog-paragraph">one</p>'' @ NL
              @ js ''<div class="backlog-spacer"></div>'' @ NL
              @ js ''<p class="backlog-paragraph">two, three</p>''\<close>
    by code_simp
  from h plain_text_lines[OF h] show ?thesis by (simp only: e simp_thms)
qed

text \<open>
  C6 as stated, with every non-blank line wrapped and the text otherwise unchanged, does
  not hold: an indented line loses its indentation, and a line that starts with \<^verbatim>\<open><\<close>
  is not wrapped.
\<close>

theorem plain_text_counterexample:
  \<open>noMarkup (js ''  a'')
   \<and> parseBacklogWiki (js ''  a'') = Inr (js ''<p class="backlog-paragraph">a</p>'')
   \<and> parseBacklogWiki (js ''  a'') \<noteq> Inr (js ''<p class="backlog-paragraph">  a</p>'')
   \<and> noMarkup (js ''<hr>'')
   \<and> parseBacklogWiki (js ''<hr>'') = Inr (js ''<hr>'')\<close>
  by code_simp




text \<open>
  C8. When the input ends in a run of header and data rows, with no line or a line that
  is no row before the run, the lines before the run leave no table open, and the
  output of the table stage is exactly: the lines pushed for the lines before the run,
  the table open tag with \<^verbatim>\<open><thead>\<close> or \<^verbatim>\<open><tbody>\<close> as the first row asks, the lines
  of every row of the run, and the two closing tags \<^verbatim>\<open></tbody>\<close> and \<^verbatim>\<open></table>\<close>
  appended at the end of the input, all joined by line breaks.
\<close>

theorem parseTable_closes_final_rows:
  assumes "split text NL = pre @ rows" and "rows \<noteq> []"
    and "\<forall>l\<in>set rows. isHeaderRow (trim l) \<or> isDataRow (trim l)"
    and "pre = [] \<or> \<not> (isHeaderRow (trim (last pre)) \<or> isDataRow (trim (last pre)))"
  shows "case tableLoop pre 0 tableInit of
           Inl e \<Rightarrow> False
         | Inr before \<Rightarrow>
             \<not> inTable before
             \<and> parseTable text =
                 Inr (join (result before @ tableOpenLines (trim (hd rows))
                              @ concat (map (\<lambda>l. rowLines (trim l)) rows)
                              @ [js ''</tbody>'', js ''</table>'']) NL)"
proof -
  define st0 where "st0 = tableRun tableInit pre"
  have closed: "\<not> inTable st0"
    unfolding st0_def using assms(4) by (rule tableRun_closed_after_other)
  have run: "tableRun tableInit (split text NL) =
      \<lparr>result = result st0 @ tableOpenLines (trim (hd rows))
                 @ concat (map (\<lambda>l. rowLines (trim l)) rows),
       inTable = True\<rparr>"
    unfolding assms(1) tableRun_append st0_def[symmetric]
    using tableRun_rows[OF assms(3,2), of st0] closed by simp
  have "parseTable text =
      Inr (join (result st0 @ tableOpenLines (trim (hd rows))
                   @ concat (map (\<lambda>l. rowLines (trim l)) rows)
                   @ [js ''</tbody>'', js ''</table>'']) NL)"
    by (simp add: parseTable_run run)
  with closed show ?thesis
    by (simp add: tableLoop_run st0_def[symmetric])
qed

theorem parseTable_closes_final_rows_witness:
  \<open>split (js ''x'' @ NL @ js ''||h||'' @ NL @ js '' |a|b|'') NL
       = [js ''x''] @ [js ''||h||'', js '' |a|b|'']
   \<and> [js ''||h||'', js '' |a|b|''] \<noteq> []
   \<and> isHeaderRow (trim (js ''||h||'')) \<and> isDataRow (trim (js '' |a|b|''))
   \<and> \<not> isHeaderRow (trim (js ''x'')) \<and> \<not> isDataRow (trim (js ''x''))
   \<and> parseTable (js ''x'' @ NL @ js ''||h||'' @ NL @ js '' |a|b|'') =
       Inr (join (map js
         [''x'', ''<table class="backlog-table">'', ''<thead>'',
          ''<tr>'', ''<th class="backlog-th">h</th>'', ''</tr>'', ''</thead>'', ''<tbody>'',
          ''<tr>'', ''<td class="backlog-td">a</td>'', ''<td class="backlog-td">b</td>'', ''</tr>'',
          ''</tbody>'', ''</table>'']) NL)\<close>
proof -
  have h1: "split (js ''x'' @ NL @ js ''||h||'' @ NL @ js '' |a|b|'') NL
       = [js ''x''] @ [js ''||h||'', js '' |a|b|'']" by code_simp
  have h2: "[js ''||h||'', js '' |a|b|''] \<noteq> []" by simp
  have r: "isHeaderRow (trim (js ''||h||''))" "isDataRow (trim (js '' |a|b|''))"
    "\<not> isHeaderRow (trim (js ''x''))" "\<not> isDataRow (trim (js ''x''))"
    by code_simp+
  from r have h3: "\<forall>l\<in>set [js ''||h||'', js '' |a|b|'']. isHeaderRow (trim l) \<or> isDataRow (trim l)"
    by simp
  from r have h4: "[js ''x''] = [] \<or> \<not> (isHeaderRow (trim (last [js ''x'']))
      \<or> isDataRow (trim (last [js ''x''])))"
    by simp
  have b: "tableLoop [js ''x''] 0 tableInit = Inr \<lparr>result = [js ''x''], inTable = False\<rparr>"
    by code_simp
  have e: \<open>tableOpenLines (trim (hd [js ''||h||'', js '' |a|b|'']))
      @ concat (map (\<lambda>l. rowLines (trim l)) [js ''||h||'', js '' |a|b|''])
     = map js [''<table class="backlog-table">'', ''<thead>'',
          ''<tr>'', ''<th class="backlog-th">h</th>'', ''</tr>'', ''</thead>'', ''<tbody>'',
          ''<tr>'', ''<td class="backlog-td">a</td>'', ''<td class="backlog-td">b</td>'', ''</tr>'']\<close>
    by code_simp
  from parseTable_closes_final_rows[OF h1 h2 h3 h4]
  have "parseTable (js ''x'' @ NL @ js ''||h||'' @ NL @ js '' |a|b|'') =
       Inr (join ([js ''x''] @ (tableOpenLines (trim (hd [js ''||h||'', js '' |a|b|'']))
      @ concat (map (\<lambda>l. rowLines (trim l)) [js ''||h||'', js '' |a|b|'']))
      @ [js ''</tbody>'', js ''</table>'']) NL)"
    by (simp add: b)
  then have \<open>parseTable (js ''x'' @ NL @ js ''||h||'' @ NL @ js '' |a|b|'') =
       Inr (join (map js
         [''x'', ''<table class="backlog-table">'', ''<thead>'',
          ''<tr>'', ''<th class="backlog-th">h</th>'', ''</tr>'', ''</thead>'', ''<tbody>'',
          ''<tr>'', ''<td class="backlog-td">a</td>'', ''<td class="backlog-td">b</td>'', ''</tr>'',
          ''</tbody>'', ''</table>'']) NL)\<close>
    unfolding e by simp
  with h1 h2 r show ?thesis by blast
qed

text \<open>
  C10. A run of data rows that starts while no table is open makes the table stage
  push \<^verbatim>\<open><table class="backlog-table">\<close> and \<^verbatim>\<open><tbody>\<close> before the first row, then
  \<^verbatim>\<open><tr>\<close>, the cells and \<^verbatim>\<open></tr>\<close> for each row; no \<^verbatim>\<open><thead>\<close> line is pushed.
\<close>

theorem data_rows_open_table:
  assumes "\<forall>l\<in>set rows. isDataRow (trim l)" and "rows \<noteq> []" and "\<not> inTable st"
  shows \<open>tableLoop rows 0 st =
     Inr \<lparr>result = result st @ [js ''<table class="backlog-table">'', js ''<tbody>'']
                    @ concat (map (\<lambda>l. [js ''<tr>''] @ dataCells (trim l) @ [js ''</tr>'']) rows),
          inTable = True\<rparr>
   \<and> js ''<thead>'' \<notin> set ([js ''<table class="backlog-table">'', js ''<tbody>'']
                    @ concat (map (\<lambda>l. [js ''<tr>''] @ dataCells (trim l) @ [js ''</tr>'']) rows))\<close>
proof -
  from assms obtain l ls' where ls: "rows = l # ls'" by (cases rows) auto
  with assms have l: "isDataRow (trim l)" and rest: "\<forall>l\<in>set ls'. isDataRow (trim l)"
    by auto
  have \<open>tableRun st rows =
     \<lparr>result = result st @ [js ''<table class="backlog-table">'', js ''<tbody>'']
                    @ concat (map (\<lambda>l. [js ''<tr>''] @ dataCells (trim l) @ [js ''</tr>'']) rows),
          inTable = True\<rparr>\<close>
    unfolding ls tableRun_Cons
    by (subst tableRun_data_open[OF rest]) (simp_all add: tableBody_data l assms(3))
  moreover have \<open>js ''<thead>'' \<notin> set ([js ''<table class="backlog-table">'', js ''<tbody>'']
                    @ concat (map (\<lambda>l. [js ''<tr>''] @ dataCells (trim l) @ [js ''</tr>'']) rows))\<close>
    using thead_not_dataCell by (auto simp: js_def)
  ultimately show ?thesis by (simp add: tableLoop_run)
qed

theorem data_rows_open_table_witness:
  \<open>isDataRow (trim (js ''|a|b|'')) \<and> [js ''|a|b|''] \<noteq> []
   \<and> \<not> inTable tableInit
   \<and> tableLoop [js ''|a|b|''] 0 tableInit =
       Inr \<lparr>result = map js [''<table class="backlog-table">'', ''<tbody>'', ''<tr>'',
               ''<td class="backlog-td">a</td>'', ''<td class="backlog-td">b</td>'', ''</tr>''],
            inTable = True\<rparr>\<close>
proof -
  have h1: "\<forall>l\<in>set [js ''|a|b|'']. isDataRow (trim l)" by code_simp
  have h2: "[js ''|a|b|''] \<noteq> []" by simp
  have h3: "\<not> inTable tableInit" by (simp add: tableInit_def)
  have c: \<open>dataCells (trim (js ''|a|b|''))
      = map js [''<td class="backlog-td">a</td>'', ''<td class="backlog-td">b</td>'']\<close>
    by code_simp
  from h1 h2 h3 data_rows_open_table[OF h1 h2 h3] show ?thesis
    by (simp add: c tableInit_def)
qed

end
